theory Spec2Isabelle
  imports Main "HOL-Library.AList"
begin

section \<open>The preprocessor fragment used by sqlcipher\_extras.h\<close>

text \<open>
  The repository is one header, \<^verbatim>\<open>Sources/CSQLCipher/include/sqlcipher_extras.h\<close>,
  made of a comment and five directives:
  \<^verbatim>\<open>
  #ifndef SQLCIPHER_EXTRAS_H
  #define SQLCIPHER_EXTRAS_H

  #ifndef SQLITE_HAS_CODEC
  #define SQLITE_HAS_CODEC 1
  #endif

  #endif /* SQLCIPHER_EXTRAS_H */
  \<close>
  Its meaning is its effect on the state of the C preprocessor, so the embedding is a
  small interpreter for the directives involved (conditional inclusion on definedness,
  object-like macro definition and removal, file inclusion, text lines with macro
  replacement) and the header as a list of lines for that interpreter.
\<close>

subsection \<open>Data\<close>

type_synonym ident = string

text \<open>A preprocessing token is kept by its spelling.\<close>

type_synonym token = string

text \<open>
  A source line after translation phases 1 to 3 (comments replaced by white space).
  \<open>Text\<close> is a line that is no directive; a blank line is \<open>Text []\<close>.
\<close>

datatype line =
    Ifndef ident
  | Ifdef ident
  | Endif
  | Define ident "token list"
  | Undef ident
  | Include string
  | Text "token list"

datatype diag =
    Redefined ident
  | StrayEndif
  | Unterminated
  | MissingFile string
  | IncludeDepth string

text \<open>
  The preprocessor state: the macro table (name and replacement list of every object-like
  macro that is defined), the tokens passed on to the compiler so far, and the diagnostics
  issued so far (warnings and errors alike).
\<close>

record pp_state =
  macros :: "(ident \<times> token list) list"
  out_tokens :: "token list"
  diags :: "diag list"

type_synonym files = "(string \<times> line list) list"

subsection \<open>Directives\<close>

definition lookup :: "pp_state \<Rightarrow> ident \<Rightarrow> token list option" where
  "lookup st x = map_of (macros st) x"

definition is_defined :: "pp_state \<Rightarrow> ident \<Rightarrow> bool" where
  "is_defined st x = (lookup st x \<noteq> None)"

definition report :: "diag \<Rightarrow> pp_state \<Rightarrow> pp_state" where
  "report e st = st\<lparr>diags := diags st @ [e]\<rparr>"

text \<open>
  \<^verbatim>\<open>#define x r\<close>. Defining a macro again is silent only when the replacement list is the
  same (C11 6.10.3p2); otherwise it is diagnosed, and the new definition is taken, as
  compilers do.
\<close>

definition define_macro :: "ident \<Rightarrow> token list \<Rightarrow> pp_state \<Rightarrow> pp_state" where
  "define_macro x r st =
     (case lookup st x of
        None \<Rightarrow> st\<lparr>macros := AList.update x r (macros st)\<rparr>
      | Some r' \<Rightarrow>
          if r' = r then st
          else report (Redefined x) (st\<lparr>macros := AList.update x r (macros st)\<rparr>))"

definition undef_macro :: "ident \<Rightarrow> pp_state \<Rightarrow> pp_state" where
  "undef_macro x st = st\<lparr>macros := AList.delete x (macros st)\<rparr>"

text \<open>
  Macro replacement of one token of a text line (C11 6.10.3.4). A token that names a
  defined macro is replaced by the macro's replacement list, which is scanned again for
  more names to replace; \<open>hide\<close> holds the macros being replaced at this point, whose
  names are left as they are when the rescan meets them. Every macro in the table is
  object-like, so no argument is ever collected; the table holds the macros of
  \<^verbatim>\<open>#define\<close> and of the command line, not the built-in ones whose value moves with the
  line or the file.
\<close>

function expand_token :: "(ident \<times> token list) list \<Rightarrow> ident list \<Rightarrow> token \<Rightarrow> token list" where
  "expand_token ms hide t =
     (if t \<in> set hide then [t]
      else (case map_of ms t of
              None \<Rightarrow> [t]
            | Some r \<Rightarrow> concat (map (expand_token ms (t # hide)) r)))"
  by pat_completeness auto
termination
proof (relation "measure (\<lambda>(ms, hide, t). card (fst ` set ms - set hide))")
  show "wf (measure (\<lambda>(ms, hide, t). card (fst ` set ms - set hide)))"
    by simp
next
  fix ms :: "(ident \<times> token list) list" and hide :: "ident list" and t :: token
    and r :: "token list" and u :: token
  assume h: "t \<notin> set hide" and m: "map_of ms t = Some r"
  have k: "t \<in> fst ` set ms - set hide"
    using h map_of_SomeD [OF m] by force
  have f: "finite (fst ` set ms - set hide)"
    by simp
  have e: "fst ` set ms - set (t # hide) = (fst ` set ms - set hide) - {t}"
    by auto
  have "card ((fst ` set ms - set hide) - {t}) < card (fst ` set ms - set hide)"
    using f k by (rule card_Diff1_less)
  then have "card (fst ` set ms - set (t # hide)) < card (fst ` set ms - set hide)"
    by (simp only: e)
  then show "((ms, t # hide, u), (ms, hide, t))
             \<in> measure (\<lambda>(ms, hide, t). card (fst ` set ms - set hide))"
    by simp
qed

declare expand_token.simps [simp del]

definition expand_line :: "(ident \<times> token list) list \<Rightarrow> token list \<Rightarrow> token list" where
  "expand_line ms ts = concat (map (expand_token ms []) ts)"

text \<open>
  A text line hands its tokens, after macro replacement, to the compiler.
\<close>

definition emit :: "token list \<Rightarrow> pp_state \<Rightarrow> pp_state" where
  "emit ts st = st\<lparr>out_tokens := out_tokens st @ expand_line (macros st) ts\<rparr>"

text \<open>
  The stack of open conditionals of the current file, innermost first. An entry tells
  whether the lines of that group are processed, so it is false inside a skipped group
  whatever the inner condition says.
\<close>

fun active :: "bool list \<Rightarrow> bool" where
  "active [] = True"
| "active (b # bs) = b"

text \<open>
  Processing the lines of one file. \<open>fs\<close> maps the names that \<^verbatim>\<open>#include\<close> can find
  to their lines and \<open>d\<close> is the nesting depth still allowed for inclusion. Conditionals
  do not span files, so an included file starts with no open conditional and is
  diagnosed when it ends with one. A diagnostic is recorded and processing goes on with
  the next line.
\<close>

fun pp_lines :: "files \<Rightarrow> nat \<Rightarrow> line list \<Rightarrow> bool list \<Rightarrow> pp_state \<Rightarrow> pp_state" where
  "pp_lines fs d [] cs st = (if cs = [] then st else report Unterminated st)"
| "pp_lines fs d (Ifndef x # ls) cs st =
     pp_lines fs d ls ((active cs \<and> \<not> is_defined st x) # cs) st"
| "pp_lines fs d (Ifdef x # ls) cs st =
     pp_lines fs d ls ((active cs \<and> is_defined st x) # cs) st"
| "pp_lines fs d (Endif # ls) [] st = pp_lines fs d ls [] (report StrayEndif st)"
| "pp_lines fs d (Endif # ls) (c # cs) st = pp_lines fs d ls cs st"
| "pp_lines fs d (Define x r # ls) cs st =
     pp_lines fs d ls cs (if active cs then define_macro x r st else st)"
| "pp_lines fs d (Undef x # ls) cs st =
     pp_lines fs d ls cs (if active cs then undef_macro x st else st)"
| "pp_lines fs d (Text ts # ls) cs st =
     pp_lines fs d ls cs (if active cs then emit ts st else st)"
| "pp_lines fs 0 (Include f # ls) cs st =
     pp_lines fs 0 ls cs
       (if active cs
        then (case map_of fs f of
                None \<Rightarrow> report (MissingFile f) st
              | Some body \<Rightarrow> report (IncludeDepth f) st)
        else st)"
| "pp_lines fs (Suc d) (Include f # ls) cs st =
     pp_lines fs (Suc d) ls cs
       (if active cs
        then (case map_of fs f of
                None \<Rightarrow> report (MissingFile f) st
              | Some body \<Rightarrow> pp_lines fs d body [] st)
        else st)"

subsection \<open>The header\<close>

text \<open>
  The 22 lines of the file. Lines 1 to 13 are one comment, which phase 3 turns into a
  single space: a blank line. The comment after the last \<^verbatim>\<open>#endif\<close> goes the same way.
\<close>

definition sqlcipher_extras_h :: "line list" where
  "sqlcipher_extras_h =
     [ Text [],
       Text [],
       Ifndef ''SQLCIPHER_EXTRAS_H'',
       Define ''SQLCIPHER_EXTRAS_H'' [],
       Text [],
       Ifndef ''SQLITE_HAS_CODEC'',
       Define ''SQLITE_HAS_CODEC'' [''1''],
       Endif,
       Text [],
       Endif ]"

text \<open>The name under which the module's public header set holds the file.\<close>

definition extras_name :: string where
  "extras_name = ''sqlcipher_extras.h''"

text \<open>
  Including the header: its lines are processed from no open conditional, which is what
  an \<^verbatim>\<open>#include\<close> of it does in a processed group (\<open>pp_lines\<close>, last equation).
\<close>

definition include_extras :: "files \<Rightarrow> nat \<Rightarrow> pp_state \<Rightarrow> pp_state" where
  "include_extras fs d st = pp_lines fs d sqlcipher_extras_h [] st"

text \<open>A file table that resolves the header's name to the header.\<close>

definition has_extras :: "files \<Rightarrow> bool" where
  "has_extras fs = (map_of fs extras_name = Some sqlcipher_extras_h)"

subsection \<open>Reading a macro as an integer constant\<close>

text \<open>
  The value of a token that is an integer constant (C11 6.4.4.1, and the binary
  constants of C23): decimal, octal, hexadecimal or binary digits, then an optional
  integer suffix. \<^verbatim>\<open>#if\<close> computes in the widest integer type, which has 64 bits in the
  compilers this package is built with; they read a constant that does not fit modulo
  \<open>2 ^ 64\<close>. A token that is no integer constant has no value.
\<close>

definition digit_table :: "(char \<times> nat) list" where
  "digit_table =
     [ (CHR ''0'', 0), (CHR ''1'', 1), (CHR ''2'', 2), (CHR ''3'', 3), (CHR ''4'', 4),
       (CHR ''5'', 5), (CHR ''6'', 6), (CHR ''7'', 7), (CHR ''8'', 8), (CHR ''9'', 9),
       (CHR ''a'', 10), (CHR ''b'', 11), (CHR ''c'', 12), (CHR ''d'', 13), (CHR ''e'', 14),
       (CHR ''f'', 15),
       (CHR ''A'', 10), (CHR ''B'', 11), (CHR ''C'', 12), (CHR ''D'', 13), (CHR ''E'', 14),
       (CHR ''F'', 15) ]"

fun digits_value :: "nat \<Rightarrow> nat \<Rightarrow> string \<Rightarrow> nat option" where
  "digits_value b acc [] = Some acc"
| "digits_value b acc (c # cs) =
     (case map_of digit_table c of
        None \<Rightarrow> None
      | Some v \<Rightarrow> if v < b then digits_value b (b * acc + v) cs else None)"

text \<open>The digits of a constant, by its prefix; a prefix alone is no constant.\<close>

fun prefixed_value :: "string \<Rightarrow> nat option" where
  "prefixed_value [] = None"
| "prefixed_value [c] = digits_value 10 0 [c]"
| "prefixed_value (c # x # ds) =
     (if c = CHR ''0'' \<and> (x = CHR ''x'' \<or> x = CHR ''X'')
      then (if ds = [] then None else digits_value 16 0 ds)
      else if c = CHR ''0'' \<and> (x = CHR ''b'' \<or> x = CHR ''B'')
      then (if ds = [] then None else digits_value 2 0 ds)
      else if c = CHR ''0'' then digits_value 8 0 (x # ds)
      else digits_value 10 0 (c # x # ds))"

definition int_suffixes :: "string list" where
  "int_suffixes =
     [ [], ''u'', ''U'', ''l'', ''L'', ''ll'', ''LL'',
       ''ul'', ''uL'', ''Ul'', ''UL'', ''ull'', ''uLL'', ''Ull'', ''ULL'',
       ''lu'', ''lU'', ''Lu'', ''LU'', ''llu'', ''llU'', ''LLu'', ''LLU'' ]"

definition suffix_char :: "char \<Rightarrow> bool" where
  "suffix_char c = (c = CHR ''u'' \<or> c = CHR ''U'' \<or> c = CHR ''l'' \<or> c = CHR ''L'')"

definition int_constant :: "token \<Rightarrow> nat option" where
  "int_constant t =
     (if dropWhile (\<lambda>c. \<not> suffix_char c) t \<in> set int_suffixes
      then map_option (\<lambda>n. n mod 2 ^ 64)
             (prefixed_value (takeWhile (\<lambda>c. \<not> suffix_char c) t))
      else None)"

text \<open>A replacement list that is one integer constant whose value is not zero.\<close>

definition nonzero_constant :: "token list \<Rightarrow> bool" where
  "nonzero_constant V =
     (case V of
        [t] \<Rightarrow> (case int_constant t of None \<Rightarrow> False | Some n \<Rightarrow> 0 < n)
      | _ \<Rightarrow> False)"

text \<open>
  The macro \<open>x\<close> is defined and its replacement list has the property \<open>P\<close>. The theorems
  about the value of \<^verbatim>\<open>SQLITE_HAS_CODEC\<close> hold for every property of replacement lists
  that the list \<open>1\<close> has, hence for whatever the compiler at hand takes for a nonzero
  integer constant; \<open>nonzero_constant\<close> above is one such property.
\<close>

definition expands_to :: "(token list \<Rightarrow> bool) \<Rightarrow> pp_state \<Rightarrow> ident \<Rightarrow> bool" where
  "expands_to P st x = (case lookup st x of None \<Rightarrow> False | Some V \<Rightarrow> P V)"

text \<open>Defined, and its replacement list is an integer constant other than zero.\<close>

definition truthy :: "pp_state \<Rightarrow> ident \<Rightarrow> bool" where
  "truthy st x = expands_to nonzero_constant st x"

subsection \<open>A header guarded by the symbol\<close>

text \<open>
  The shape of the SQLCipher public header as far as the shim is concerned: declarations
  (text lines) between \<^verbatim>\<open>#ifdef SQLITE_HAS_CODEC\<close> and \<^verbatim>\<open>#endif\<close>.
\<close>

definition guarded_header :: "token list list \<Rightarrow> line list" where
  "guarded_header decls = Ifdef ''SQLITE_HAS_CODEC'' # map Text decls @ [Endif]"

subsection \<open>Translation units\<close>

text \<open>
  The state in which a translation unit starts: the macros given on the command line,
  nothing passed on, nothing diagnosed.
\<close>

definition start_state :: "(ident \<times> token list) list \<Rightarrow> pp_state" where
  "start_state ms = \<lparr>macros = ms, out_tokens = [], diags = []\<rparr>"

text \<open>A translation unit that includes the header \<open>n\<close> times, one line after the other.\<close>

definition include_n :: "files \<Rightarrow> nat \<Rightarrow> nat \<Rightarrow> pp_state \<Rightarrow> pp_state" where
  "include_n fs d n st = pp_lines fs (Suc d) (replicate n (Include extras_name)) [] st"

text \<open>
  A translation unit that includes the shim and then a header \<open>g\<close>, and the same unit
  without the shim.
\<close>

definition with_shim :: "string \<Rightarrow> line list" where
  "with_shim g = [Include extras_name, Include g]"

definition without_shim :: "string \<Rightarrow> line list" where
  "without_shim g = [Include g]"

section \<open>How the header acts on a state\<close>

lemma emit_Nil [simp]: "emit [] st = st"
  by (simp add: emit_def expand_line_def)

lemma lookup_report [simp]: "lookup (report e st) x = lookup st x"
  by (simp add: lookup_def report_def)

lemma is_defined_report [simp]: "is_defined (report e st) x = is_defined st x"
  by (simp add: is_defined_def)

lemma lookup_define_undefined:
  "lookup st x = None \<Longrightarrow>
   lookup (define_macro x r st) y = (if y = x then Some r else lookup st y)"
  by (simp add: define_macro_def lookup_def AList.update_conv')

lemma define_undefined_frame:
  "lookup st x = None \<Longrightarrow>
   out_tokens (define_macro x r st) = out_tokens st \<and> diags (define_macro x r st) = diags st"
  by (simp add: define_macro_def)

text \<open>
  The header in closed form: nothing when the include guard is defined; otherwise the
  guard is defined, and the symbol is defined as \<open>1\<close> unless it is defined already.
\<close>

lemma include_extras_eq:
  "include_extras fs d st =
     (if is_defined st ''SQLCIPHER_EXTRAS_H'' then st
      else if is_defined st ''SQLITE_HAS_CODEC''
      then define_macro ''SQLCIPHER_EXTRAS_H'' [] st
      else define_macro ''SQLITE_HAS_CODEC'' [''1'']
             (define_macro ''SQLCIPHER_EXTRAS_H'' [] st))"
  by (simp add: include_extras_def sqlcipher_extras_h_def is_defined_def
      lookup_define_undefined)

lemma include_extras_guarded:
  "is_defined st ''SQLCIPHER_EXTRAS_H'' \<Longrightarrow> include_extras fs d st = st"
  by (simp add: include_extras_eq)

lemma lookup_include_extras:
  "lookup (include_extras fs d st) x =
     (if is_defined st ''SQLCIPHER_EXTRAS_H'' then lookup st x
      else if x = ''SQLCIPHER_EXTRAS_H'' then Some []
      else if x = ''SQLITE_HAS_CODEC''
      then (case lookup st x of None \<Rightarrow> Some [''1''] | Some v \<Rightarrow> Some v)
      else lookup st x)"
  by (auto simp add: include_extras_eq is_defined_def lookup_define_undefined)

lemma include_extras_frame:
  "out_tokens (include_extras fs d st) = out_tokens st \<and>
   diags (include_extras fs d st) = diags st"
  by (simp add: include_extras_eq is_defined_def define_undefined_frame
      lookup_define_undefined)

lemma guard_after_include: "is_defined (include_extras fs d st) ''SQLCIPHER_EXTRAS_H''"
  by (simp add: is_defined_def lookup_include_extras)

lemma include_extras_twice:
  "include_extras fs d (include_extras fs' d' st) = include_extras fs' d' st"
  by (rule include_extras_guarded) (rule guard_after_include)

lemma include_extras_env: "include_extras fs d st = include_extras fs' d' st"
  by (simp add: include_extras_eq)

lemma pp_lines_Include_extras:
  "has_extras fs \<Longrightarrow>
   pp_lines fs (Suc d) (Include extras_name # ls) cs st =
   pp_lines fs (Suc d) ls cs (if active cs then include_extras fs d st else st)"
  by (simp add: has_extras_def include_extras_def)

lemma pp_lines_replicate_extras:
  "has_extras fs \<Longrightarrow>
   pp_lines fs (Suc d) (replicate n (Include extras_name)) [] st =
   ((include_extras fs d) ^^ n) st"
proof (induction n arbitrary: st)
  case 0
  show ?case by simp
next
  case (Suc n)
  have "pp_lines fs (Suc d) (replicate (Suc n) (Include extras_name)) [] st =
        pp_lines fs (Suc d) (replicate n (Include extras_name)) [] (include_extras fs d st)"
    using Suc.prems
    by (simp only: replicate_Suc pp_lines_Include_extras active.simps if_True)
  also have "\<dots> = ((include_extras fs d) ^^ n) (include_extras fs d st)"
    using Suc.prems by (rule Suc.IH)
  finally show ?case
    by (simp add: funpow_swap1)
qed

lemma funpow_include_extras:
  "((include_extras fs d) ^^ Suc n) st = include_extras fs d st"
  by (induction n) (simp_all add: include_extras_twice)

lemma include_n_funpow:
  "has_extras fs \<Longrightarrow> include_n fs d n st = ((include_extras fs d) ^^ n) st"
  by (simp add: include_n_def pp_lines_replicate_extras)

lemma include_n_Suc:
  "has_extras fs \<Longrightarrow> include_n fs d (Suc n) st = include_extras fs d st"
  by (simp only: include_n_funpow funpow_include_extras)

lemma expands_to_is_defined: "expands_to P st x \<Longrightarrow> is_defined st x"
  by (auto simp add: expands_to_def is_defined_def split: option.splits)

lemma nonzero_constant_one: "nonzero_constant [''1'']"
  by (simp add: nonzero_constant_def int_constant_def suffix_char_def int_suffixes_def
      digit_table_def)

lemma lookup_kept:
  "lookup st ''SQLITE_HAS_CODEC'' = Some v \<Longrightarrow>
   lookup (include_extras fs d st) ''SQLITE_HAS_CODEC'' = Some v"
  by (simp add: lookup_include_extras)

lemma expands_to_after:
  assumes "P [''1'']"
    and "expands_to P st ''SQLITE_HAS_CODEC'' \<or>
         (\<not> is_defined st ''SQLITE_HAS_CODEC'' \<and> \<not> is_defined st ''SQLCIPHER_EXTRAS_H'')"
  shows "expands_to P (include_extras fs d st) ''SQLITE_HAS_CODEC''"
  using assms(2)
proof
  assume t: "expands_to P st ''SQLITE_HAS_CODEC''"
  then obtain v where v: "lookup st ''SQLITE_HAS_CODEC'' = Some v" and p: "P v"
    by (auto simp add: expands_to_def split: option.splits)
  show ?thesis
    using lookup_kept [OF v] p by (simp add: expands_to_def)
next
  assume "\<not> is_defined st ''SQLITE_HAS_CODEC'' \<and> \<not> is_defined st ''SQLCIPHER_EXTRAS_H''"
  then have "lookup (include_extras fs d st) ''SQLITE_HAS_CODEC'' = Some [''1'']"
    by (simp add: lookup_include_extras is_defined_def)
  then show ?thesis
    using assms(1) by (simp add: expands_to_def)
qed

lemma macros_emit [simp]: "macros (emit ts st) = macros st"
  by (simp add: emit_def)

lemma expand_line_Nil [simp]: "expand_line ms [] = []"
  by (simp add: expand_line_def)

lemma pp_lines_decls:
  "pp_lines fs d (map Text decls @ [Endif]) [b] st =
     (if b
      then st\<lparr>out_tokens := out_tokens st @ concat (map (expand_line (macros st)) decls)\<rparr>
      else st)"
  by (induction decls arbitrary: st) (simp_all add: emit_def)

lemma pp_lines_guarded_header:
  "pp_lines fs d (guarded_header decls) [] st =
     (if is_defined st ''SQLITE_HAS_CODEC''
      then st\<lparr>out_tokens := out_tokens st @ concat (map (expand_line (macros st)) decls)\<rparr>
      else st)"
  by (simp add: guarded_header_def pp_lines_decls)

lemma lookup_kept_funpow:
  "lookup st ''SQLITE_HAS_CODEC'' = Some v \<Longrightarrow>
   lookup (((include_extras fs d) ^^ m) st) ''SQLITE_HAS_CODEC'' = Some v"
  by (induction m) (simp_all add: lookup_kept)

lemma include_n_add:
  "has_extras fs \<Longrightarrow> include_n fs d (n + m) st = include_n fs d m (include_n fs d n st)"
proof -
  assume h: "has_extras fs"
  have "((include_extras fs d) ^^ (m + n)) st =
        ((include_extras fs d) ^^ m) (((include_extras fs d) ^^ n) st)"
    by (simp add: funpow_add)
  then show ?thesis
    by (simp add: include_n_funpow [OF h] add.commute [of n m])
qed

lemma pp_lines_one_include:
  "has_extras fs \<Longrightarrow>
   pp_lines fs (Suc d) [Include extras_name] [] st = include_extras fs d st"
  by (simp add: has_extras_def include_extras_def)

section \<open>The claims\<close>

text \<open>
  C1, as the specification states it: for every initial state, after inclusion
  \<^verbatim>\<open>SQLITE_HAS_CODEC\<close> is defined and is a nonzero integer constant. It fails when the
  unit starts with \<^verbatim>\<open>SQLITE_HAS_CODEC\<close> defined as \<open>0\<close>: the header keeps the \<open>0\<close>.
\<close>

theorem codec_zero_stays_zero:
  "lookup (include_extras [] 0 (start_state [(''SQLITE_HAS_CODEC'', [''0''])]))
     ''SQLITE_HAS_CODEC'' = Some [''0''] \<and>
   \<not> truthy (include_extras [] 0 (start_state [(''SQLITE_HAS_CODEC'', [''0''])]))
       ''SQLITE_HAS_CODEC''"
  by (simp add: truthy_def expands_to_def nonzero_constant_def int_constant_def
      suffix_char_def int_suffixes_def digit_table_def lookup_def is_defined_def
      start_state_def include_extras_def sqlcipher_extras_h_def define_macro_def)

text \<open>
  C1, amended: for every initial state in which \<^verbatim>\<open>SQLITE_HAS_CODEC\<close> is already defined
  as a nonzero integer constant, or in which neither \<^verbatim>\<open>SQLITE_HAS_CODEC\<close> nor the include
  guard \<^verbatim>\<open>SQLCIPHER_EXTRAS_H\<close> is defined, after inclusion \<^verbatim>\<open>SQLITE_HAS_CODEC\<close> is defined
  and is a nonzero integer constant. Here \<open>nz\<close> is what makes a replacement list a nonzero
  integer constant for the preprocessor; all that is asked of it is that the list \<open>1\<close>
  is one, so the statement covers every spelling (\<open>2\<close>, \<open>0x1\<close>, \<open>1L\<close>, \<open>1u\<close>) and every
  width of the arithmetic of \<^verbatim>\<open>#if\<close>.
\<close>

theorem codec_truthy_after_include:
  assumes "nz [''1'']"
    and "expands_to nz s ''SQLITE_HAS_CODEC'' \<or>
         (\<not> is_defined s ''SQLITE_HAS_CODEC'' \<and> \<not> is_defined s ''SQLCIPHER_EXTRAS_H'')"
  shows "is_defined (include_extras fs d s) ''SQLITE_HAS_CODEC'' \<and>
         expands_to nz (include_extras fs d s) ''SQLITE_HAS_CODEC''"
  using expands_to_after [of nz s fs d, OF assms] expands_to_is_defined by blast

theorem codec_truthy_after_include_witness:
  "nonzero_constant [''1''] \<and>
   \<not> is_defined (start_state []) ''SQLITE_HAS_CODEC'' \<and>
   \<not> is_defined (start_state []) ''SQLCIPHER_EXTRAS_H'' \<and>
   truthy (include_extras [] 0 (start_state [])) ''SQLITE_HAS_CODEC'' \<and>
   truthy (start_state [(''SQLITE_HAS_CODEC'', [''0x2uL''])]) ''SQLITE_HAS_CODEC'' \<and>
   truthy (include_extras [] 0 (start_state [(''SQLITE_HAS_CODEC'', [''0x2uL''])]))
     ''SQLITE_HAS_CODEC''"
proof -
  have u: "\<not> is_defined (start_state []) ''SQLITE_HAS_CODEC'' \<and>
           \<not> is_defined (start_state []) ''SQLCIPHER_EXTRAS_H''"
    by (simp add: is_defined_def lookup_def start_state_def)
  have t: "expands_to nonzero_constant (start_state [(''SQLITE_HAS_CODEC'', [''0x2uL''])])
             ''SQLITE_HAS_CODEC''"
    by (simp add: expands_to_def lookup_def start_state_def nonzero_constant_def
        int_constant_def suffix_char_def int_suffixes_def digit_table_def)
  show ?thesis
    using u t nonzero_constant_one
      codec_truthy_after_include
        [of nonzero_constant "start_state []" "[]" 0, OF nonzero_constant_one]
      codec_truthy_after_include
        [of nonzero_constant "start_state [(''SQLITE_HAS_CODEC'', [''0x2uL''])]" "[]" 0,
         OF nonzero_constant_one]
    by (simp add: truthy_def)
qed

text \<open>
  C2: for every initial state in which \<^verbatim>\<open>SQLITE_HAS_CODEC\<close> is defined with a replacement
  list \<open>V\<close>, whatever \<open>V\<close> is, it still expands to \<open>V\<close> after inclusion; a predefined
  \<open>0\<close> is one such \<open>V\<close> and is not overridden.
\<close>

theorem prior_definition_preserved:
  "lookup s ''SQLITE_HAS_CODEC'' = Some V \<Longrightarrow>
   lookup (include_extras fs d s) ''SQLITE_HAS_CODEC'' = Some V"
  by (rule lookup_kept)

theorem prior_definition_preserved_witness:
  "lookup (start_state [(''SQLITE_HAS_CODEC'', [''2''])]) ''SQLITE_HAS_CODEC'' = Some [''2''] \<and>
   lookup (include_extras [] 0 (start_state [(''SQLITE_HAS_CODEC'', [''2''])]))
     ''SQLITE_HAS_CODEC'' = Some [''2''] \<and>
   lookup (include_extras [] 0 (start_state [(''SQLITE_HAS_CODEC'', [''0''])]))
     ''SQLITE_HAS_CODEC'' = Some [''0'']"
  using prior_definition_preserved
          [of "start_state [(''SQLITE_HAS_CODEC'', [''2''])]" "[''2'']" "[]" 0]
        prior_definition_preserved
          [of "start_state [(''SQLITE_HAS_CODEC'', [''0''])]" "[''0'']" "[]" 0]
  by (simp add: lookup_def start_state_def)

text \<open>
  C3, as the specification states it: for every initial state in which
  \<^verbatim>\<open>SQLITE_HAS_CODEC\<close> is not defined, it is defined as \<open>1\<close> after inclusion. It fails
  when the include guard is defined and the symbol is not: the body is skipped.
\<close>

theorem codec_undefined_behind_guard:
  "\<not> is_defined (start_state [(''SQLCIPHER_EXTRAS_H'', [])]) ''SQLITE_HAS_CODEC'' \<and>
   lookup (include_extras [] 0 (start_state [(''SQLCIPHER_EXTRAS_H'', [])]))
     ''SQLITE_HAS_CODEC'' \<noteq> Some [''1'']"
  by (simp add: lookup_def is_defined_def start_state_def include_extras_def
      sqlcipher_extras_h_def)

text \<open>
  C3, amended: for every initial state in which neither \<^verbatim>\<open>SQLITE_HAS_CODEC\<close> nor the
  include guard \<^verbatim>\<open>SQLCIPHER_EXTRAS_H\<close> is defined, after inclusion \<^verbatim>\<open>SQLITE_HAS_CODEC\<close> is
  defined and its replacement list is exactly the token \<open>1\<close>.
\<close>

theorem codec_defined_as_one:
  "\<not> is_defined s ''SQLITE_HAS_CODEC'' \<Longrightarrow> \<not> is_defined s ''SQLCIPHER_EXTRAS_H'' \<Longrightarrow>
   is_defined (include_extras fs d s) ''SQLITE_HAS_CODEC'' \<and>
   lookup (include_extras fs d s) ''SQLITE_HAS_CODEC'' = Some [''1'']"
  by (simp add: is_defined_def lookup_include_extras)

theorem codec_defined_as_one_witness:
  "\<not> is_defined (start_state [(''NDEBUG'', [])]) ''SQLITE_HAS_CODEC'' \<and>
   \<not> is_defined (start_state [(''NDEBUG'', [])]) ''SQLCIPHER_EXTRAS_H'' \<and>
   lookup (include_extras [] 0 (start_state [(''NDEBUG'', [])])) ''SQLITE_HAS_CODEC''
     = Some [''1'']"
  using codec_defined_as_one [of "start_state [(''NDEBUG'', [])]" "[]" 0]
  by (simp add: is_defined_def lookup_def start_state_def)

text \<open>
  C4, as the specification states it: in every state reached after the header has been
  processed, from any initial state and after any number of inclusions,
  \<^verbatim>\<open>SQLITE_HAS_CODEC\<close> is defined as a nonzero integer constant. It fails for a unit that
  starts with the symbol defined as \<open>0\<close> and includes the header twice.
\<close>

theorem codec_zero_after_two_inclusions:
  "lookup (include_n [(extras_name, sqlcipher_extras_h)] 0 2
             (start_state [(''SQLITE_HAS_CODEC'', [''0''])]))
     ''SQLITE_HAS_CODEC'' = Some [''0''] \<and>
   \<not> truthy (include_n [(extras_name, sqlcipher_extras_h)] 0 2
              (start_state [(''SQLITE_HAS_CODEC'', [''0''])]))
       ''SQLITE_HAS_CODEC''"
proof -
  have e: "include_n [(extras_name, sqlcipher_extras_h)] 0 2
             (start_state [(''SQLITE_HAS_CODEC'', [''0''])])
           = \<lparr>macros = [(''SQLITE_HAS_CODEC'', [''0'']), (''SQLCIPHER_EXTRAS_H'', [])],
              out_tokens = [], diags = []\<rparr>"
    by (simp add: include_n_def numeral_2_eq_2 extras_name_def sqlcipher_extras_h_def
        is_defined_def lookup_def start_state_def define_macro_def)
  show ?thesis
    unfolding e
    by (simp add: truthy_def expands_to_def nonzero_constant_def int_constant_def
        suffix_char_def int_suffixes_def digit_table_def lookup_def)
qed

text \<open>
  C4, amended: for every initial state in which \<^verbatim>\<open>SQLITE_HAS_CODEC\<close> is already defined
  as a nonzero integer constant, or in which neither \<^verbatim>\<open>SQLITE_HAS_CODEC\<close> nor the include
  guard is defined, after any number \<open>n \<ge> 1\<close> of inclusions \<^verbatim>\<open>SQLITE_HAS_CODEC\<close> is
  defined as a nonzero integer constant; and from any initial state, a definition that
  \<^verbatim>\<open>SQLITE_HAS_CODEC\<close> has after \<open>n\<close> inclusions is neither removed nor changed by any
  \<open>m\<close> further inclusions. As for C1, \<open>nz\<close> is what makes a replacement list a nonzero
  integer constant, of which only that the list \<open>1\<close> is one is used.
\<close>

theorem codec_invariant_over_inclusions:
  assumes "has_extras fs" and "nz [''1'']"
  shows "(1 \<le> n \<and>
          (expands_to nz s ''SQLITE_HAS_CODEC'' \<or>
           (\<not> is_defined s ''SQLITE_HAS_CODEC'' \<and> \<not> is_defined s ''SQLCIPHER_EXTRAS_H''))
          \<longrightarrow> expands_to nz (include_n fs d n s) ''SQLITE_HAS_CODEC'') \<and>
         (lookup (include_n fs d n s) ''SQLITE_HAS_CODEC'' = Some V
          \<longrightarrow> lookup (include_n fs d (n + m) s) ''SQLITE_HAS_CODEC'' = Some V)"
proof (intro conjI impI)
  assume a: "1 \<le> n \<and>
          (expands_to nz s ''SQLITE_HAS_CODEC'' \<or>
           (\<not> is_defined s ''SQLITE_HAS_CODEC'' \<and> \<not> is_defined s ''SQLCIPHER_EXTRAS_H''))"
  then obtain k where k: "n = Suc k"
    by (cases n) auto
  have "include_n fs d n s = include_extras fs d s"
    unfolding k using assms(1) by (rule include_n_Suc)
  then show "expands_to nz (include_n fs d n s) ''SQLITE_HAS_CODEC''"
    using a expands_to_after [of nz s fs d, OF assms(2)] by simp
next
  assume v: "lookup (include_n fs d n s) ''SQLITE_HAS_CODEC'' = Some V"
  have "include_n fs d (n + m) s = include_n fs d m (include_n fs d n s)"
    using assms(1) by (rule include_n_add)
  also have "\<dots> = ((include_extras fs d) ^^ m) (include_n fs d n s)"
    using assms(1) by (rule include_n_funpow)
  finally show "lookup (include_n fs d (n + m) s) ''SQLITE_HAS_CODEC'' = Some V"
    using lookup_kept_funpow [OF v] by simp
qed

theorem codec_invariant_over_inclusions_witness:
  "has_extras [(extras_name, sqlcipher_extras_h)] \<and>
   nonzero_constant [''1''] \<and>
   \<not> is_defined (start_state []) ''SQLITE_HAS_CODEC'' \<and>
   \<not> is_defined (start_state []) ''SQLCIPHER_EXTRAS_H'' \<and>
   truthy (include_n [(extras_name, sqlcipher_extras_h)] 0 2 (start_state []))
     ''SQLITE_HAS_CODEC'' \<and>
   lookup (include_n [(extras_name, sqlcipher_extras_h)] 0 2 (start_state []))
     ''SQLITE_HAS_CODEC'' = Some [''1''] \<and>
   lookup (include_n [(extras_name, sqlcipher_extras_h)] 0 3 (start_state []))
     ''SQLITE_HAS_CODEC'' = Some [''1'']"
proof -
  have h: "has_extras [(extras_name, sqlcipher_extras_h)]"
    by (simp add: has_extras_def)
  have u: "\<not> is_defined (start_state []) ''SQLITE_HAS_CODEC'' \<and>
           \<not> is_defined (start_state []) ''SQLCIPHER_EXTRAS_H''"
    by (simp add: is_defined_def lookup_def start_state_def)
  have v: "lookup (include_n [(extras_name, sqlcipher_extras_h)] 0 2 (start_state []))
             ''SQLITE_HAS_CODEC'' = Some [''1'']"
    by (simp add: lookup_def is_defined_def start_state_def include_n_def eval_nat_numeral
        extras_name_def sqlcipher_extras_h_def define_macro_def)
  show ?thesis
    using h u v nonzero_constant_one
      codec_invariant_over_inclusions
        [of "[(extras_name, sqlcipher_extras_h)]" nonzero_constant 2 "start_state []" 0
            "[''1'']" 1,
         OF h nonzero_constant_one]
    by (simp add: truthy_def)
qed

text \<open>
  C5: for every initial state and every \<open>n \<ge> 1\<close>, a translation unit that includes the
  header \<open>n\<close> times ends in the same state as one that includes it once, and no
  diagnostic (redefinition or other) is added to those issued before.
\<close>

theorem inclusion_idempotent:
  assumes "has_extras fs" and "1 \<le> n"
  shows "include_n fs d n s = include_n fs d 1 s \<and>
         diags (include_n fs d n s) = diags s"
proof -
  obtain k where k: "n = Suc k"
    using assms(2) by (cases n) auto
  have n: "include_n fs d n s = include_extras fs d s"
    unfolding k using assms(1) by (rule include_n_Suc)
  have "include_n fs d 1 s = include_extras fs d s"
    using include_n_Suc [OF assms(1), of d 0 s] by simp
  then show ?thesis
    using n include_extras_frame by simp
qed

theorem inclusion_idempotent_witness:
  "has_extras [(extras_name, sqlcipher_extras_h)] \<and> (1::nat) \<le> 3 \<and>
   include_n [(extras_name, sqlcipher_extras_h)] 0 3 (start_state [(''SQLITE_HAS_CODEC'', [''2''])])
     = include_n [(extras_name, sqlcipher_extras_h)] 0 1
         (start_state [(''SQLITE_HAS_CODEC'', [''2''])]) \<and>
   diags (include_n [(extras_name, sqlcipher_extras_h)] 0 3
            (start_state [(''SQLITE_HAS_CODEC'', [''2''])])) = []"
proof -
  have h: "has_extras [(extras_name, sqlcipher_extras_h)]"
    by (simp add: has_extras_def)
  have n: "(1::nat) \<le> 3"
    by simp
  have e: "diags (start_state [(''SQLITE_HAS_CODEC'', [''2''])]) = []"
    by (simp add: start_state_def)
  show ?thesis
    using h n
      inclusion_idempotent
        [OF h n, of 0 "start_state [(''SQLITE_HAS_CODEC'', [''2''])]", unfolded e]
    by blast
qed

text \<open>
  C6: for every initial state, inclusion leaves the definition (or absence) of every macro
  other than \<^verbatim>\<open>SQLITE_HAS_CODEC\<close> and \<^verbatim>\<open>SQLCIPHER_EXTRAS_H\<close> as it was and hands no token
  to the compiler; a translation unit that holds nothing but the inclusion hands the
  compiler no token at all, hence no declaration, type, storage or symbol.
\<close>

theorem inclusion_frame:
  "(x \<noteq> ''SQLITE_HAS_CODEC'' \<and> x \<noteq> ''SQLCIPHER_EXTRAS_H''
    \<longrightarrow> lookup (include_extras fs d s) x = lookup s x) \<and>
   out_tokens (include_extras fs d s) = out_tokens s \<and>
   (has_extras fs
    \<longrightarrow> out_tokens (pp_lines fs (Suc d) [Include extras_name] [] (start_state ms)) = [])"
proof (intro conjI impI)
  assume "x \<noteq> ''SQLITE_HAS_CODEC'' \<and> x \<noteq> ''SQLCIPHER_EXTRAS_H''"
  then show "lookup (include_extras fs d s) x = lookup s x"
    by (simp add: lookup_include_extras)
next
  show "out_tokens (include_extras fs d s) = out_tokens s"
    by (simp add: include_extras_frame)
next
  assume h: "has_extras fs"
  have "pp_lines fs (Suc d) [Include extras_name] [] (start_state ms) =
        include_extras fs d (start_state ms)"
    using h by (rule pp_lines_one_include)
  then show "out_tokens (pp_lines fs (Suc d) [Include extras_name] [] (start_state ms)) = []"
    by (simp add: include_extras_frame start_state_def)
qed

theorem inclusion_frame_witness:
  "has_extras [(extras_name, sqlcipher_extras_h)] \<and>
   lookup (include_extras [(extras_name, sqlcipher_extras_h)] 0
             (start_state [(''NDEBUG'', [''1''])])) ''NDEBUG'' = Some [''1''] \<and>
   out_tokens (include_extras [(extras_name, sqlcipher_extras_h)] 0
                 (start_state [(''NDEBUG'', [''1''])])) = [] \<and>
   out_tokens (pp_lines [(extras_name, sqlcipher_extras_h)] (Suc 0) [Include extras_name] []
                 (start_state [(''NDEBUG'', [''1''])])) = []"
proof -
  have h: "has_extras [(extras_name, sqlcipher_extras_h)]"
    by (simp add: has_extras_def)
  show ?thesis
    using h
      inclusion_frame [of "''NDEBUG''" "[(extras_name, sqlcipher_extras_h)]" 0
                          "start_state [(''NDEBUG'', [''1''])]" "[(''NDEBUG'', [''1''])]"]
    by (simp add: lookup_def start_state_def)
qed

text \<open>
  C7, as the specification states it: for every header whose declarations are guarded by
  \<^verbatim>\<open>#ifdef SQLITE_HAS_CODEC\<close>, a translation unit that includes the shim before that
  header sees the guarded declarations. It fails for a unit that starts with the include
  guard \<^verbatim>\<open>SQLCIPHER_EXTRAS_H\<close> defined and \<^verbatim>\<open>SQLITE_HAS_CODEC\<close> not: the shim is skipped
  and the declaration of \<^verbatim>\<open>sqlite3_key\<close> does not reach the compiler.
\<close>

theorem shim_behind_guard_hides_declarations:
  "out_tokens
     (pp_lines
        [(extras_name, sqlcipher_extras_h),
         (''sqlite_nio_sqlcipher.h'',
          guarded_header [ [''int'', ''sqlite3_key'', ''('', ''sqlite3'', ''*'', '')'', '';''] ])]
        (Suc 0) (with_shim ''sqlite_nio_sqlcipher.h'') []
        (start_state [(''SQLCIPHER_EXTRAS_H'', [])]))
     = []"
  by (simp add: with_shim_def extras_name_def sqlcipher_extras_h_def guarded_header_def
      is_defined_def lookup_def start_state_def)

text \<open>
  C7, amended: for every header whose declarations stand between
  \<^verbatim>\<open>#ifdef SQLITE_HAS_CODEC\<close> and \<^verbatim>\<open>#endif\<close>, a translation unit that includes the shim
  and then that header, started in a state where \<^verbatim>\<open>SQLITE_HAS_CODEC\<close> is already defined
  or the include guard \<^verbatim>\<open>SQLCIPHER_EXTRAS_H\<close> is not, hands the declarations to the
  compiler (their tokens, after macro replacement in the state the shim leaves, as for
  any text line), so that a reference to \<^verbatim>\<open>sqlite3_key\<close> resolves; the same unit without
  the shim, started with no definition of \<^verbatim>\<open>SQLITE_HAS_CODEC\<close>, hands over none of them.
\<close>

theorem shim_reveals_guarded_declarations:
  assumes "has_extras fs" and "map_of fs g = Some (guarded_header decls)"
  shows "(is_defined s ''SQLITE_HAS_CODEC'' \<or> \<not> is_defined s ''SQLCIPHER_EXTRAS_H''
          \<longrightarrow> out_tokens (pp_lines fs (Suc d) (with_shim g) [] s) =
               out_tokens s @
               concat (map (expand_line (macros (include_extras fs d s))) decls)) \<and>
         (\<not> is_defined s ''SQLITE_HAS_CODEC''
          \<longrightarrow> out_tokens (pp_lines fs (Suc d) (without_shim g) [] s) = out_tokens s)"
proof (intro conjI impI)
  have g: "pp_lines fs (Suc d) [Include g] [] t = pp_lines fs d (guarded_header decls) [] t"
    for t
    using assms(2) by simp
  {
    assume u: "is_defined s ''SQLITE_HAS_CODEC'' \<or> \<not> is_defined s ''SQLCIPHER_EXTRAS_H''"
    have "pp_lines fs (Suc d) (with_shim g) [] s =
          pp_lines fs (Suc d) [Include g] [] (include_extras fs d s)"
      unfolding with_shim_def
      by (simp only: pp_lines_Include_extras [OF assms(1)] active.simps if_True)
    also have "\<dots> = pp_lines fs d (guarded_header decls) [] (include_extras fs d s)"
      by (rule g)
    finally have e: "pp_lines fs (Suc d) (with_shim g) [] s =
          pp_lines fs d (guarded_header decls) [] (include_extras fs d s)" .
    have "is_defined (include_extras fs d s) ''SQLITE_HAS_CODEC''"
      using u by (auto simp add: is_defined_def lookup_include_extras split: option.splits)
    then show "out_tokens (pp_lines fs (Suc d) (with_shim g) [] s) =
               out_tokens s @
               concat (map (expand_line (macros (include_extras fs d s))) decls)"
      by (simp add: e pp_lines_guarded_header include_extras_frame)
  }
  {
    assume "\<not> is_defined s ''SQLITE_HAS_CODEC''"
    then show "out_tokens (pp_lines fs (Suc d) (without_shim g) [] s) = out_tokens s"
      unfolding without_shim_def by (simp only: g pp_lines_guarded_header if_False)
  }
qed

theorem shim_reveals_guarded_declarations_witness:
  "has_extras
     [(extras_name, sqlcipher_extras_h),
      (''sqlite_nio_sqlcipher.h'',
       guarded_header
         [ [''SQLITE_API'', ''int'', ''sqlite3_key'', ''('', ''sqlite3'', ''*'', '')'', '';''] ])] \<and>
   \<not> is_defined (start_state [(''SQLITE_API'', [])]) ''SQLCIPHER_EXTRAS_H'' \<and>
   \<not> is_defined (start_state [(''SQLITE_API'', [])]) ''SQLITE_HAS_CODEC'' \<and>
   out_tokens
     (pp_lines
        [(extras_name, sqlcipher_extras_h),
         (''sqlite_nio_sqlcipher.h'',
          guarded_header
            [ [''SQLITE_API'', ''int'', ''sqlite3_key'', ''('', ''sqlite3'', ''*'', '')'', '';''] ])]
        (Suc 0) (with_shim ''sqlite_nio_sqlcipher.h'') [] (start_state [(''SQLITE_API'', [])]))
     = [''int'', ''sqlite3_key'', ''('', ''sqlite3'', ''*'', '')'', '';''] \<and>
   out_tokens
     (pp_lines
        [(extras_name, sqlcipher_extras_h),
         (''sqlite_nio_sqlcipher.h'',
          guarded_header
            [ [''SQLITE_API'', ''int'', ''sqlite3_key'', ''('', ''sqlite3'', ''*'', '')'', '';''] ])]
        (Suc 0) (without_shim ''sqlite_nio_sqlcipher.h'') [] (start_state [(''SQLITE_API'', [])]))
     = []"
proof -
  let ?decls =
    "[ [''SQLITE_API'', ''int'', ''sqlite3_key'', ''('', ''sqlite3'', ''*'', '')'', '';''] ]"
  let ?fs = "[(extras_name, sqlcipher_extras_h),
              (''sqlite_nio_sqlcipher.h'', guarded_header ?decls)]"
  let ?s = "start_state [(''SQLITE_API'', [])]"
  have h: "has_extras ?fs"
    by (simp add: has_extras_def)
  have g: "map_of ?fs ''sqlite_nio_sqlcipher.h'' = Some (guarded_header ?decls)"
    by (simp add: extras_name_def)
  have u: "\<not> is_defined ?s ''SQLCIPHER_EXTRAS_H'' \<and> \<not> is_defined ?s ''SQLITE_HAS_CODEC''"
    by (simp add: is_defined_def lookup_def start_state_def)
  have e: "out_tokens ?s = []"
    by (simp add: start_state_def)
  have m: "concat (map (expand_line (macros (include_extras ?fs 0 ?s))) ?decls)
           = [''int'', ''sqlite3_key'', ''('', ''sqlite3'', ''*'', '')'', '';'']"
    by (simp add: include_extras_def sqlcipher_extras_h_def is_defined_def lookup_def
        start_state_def define_macro_def expand_line_def expand_token.simps)
  show ?thesis
    using h u shim_reveals_guarded_declarations [OF h g, of ?s 0, unfolded e m]
    by simp
qed

text \<open>
  C8: when the include guard \<^verbatim>\<open>SQLCIPHER_EXTRAS_H\<close> is already defined, inclusion leaves
  the whole state as it is; so a \<^verbatim>\<open>SQLITE_HAS_CODEC\<close> that was not defined is still not
  defined afterwards, and predefining the guard switches the shim off.
\<close>

theorem predefined_guard_disables_shim:
  assumes "is_defined s ''SQLCIPHER_EXTRAS_H''"
  shows "include_extras fs d s = s \<and>
         (\<not> is_defined s ''SQLITE_HAS_CODEC''
          \<longrightarrow> \<not> is_defined (include_extras fs d s) ''SQLITE_HAS_CODEC'')"
  using include_extras_guarded [OF assms] by simp

theorem predefined_guard_disables_shim_witness:
  "is_defined (start_state [(''SQLCIPHER_EXTRAS_H'', [])]) ''SQLCIPHER_EXTRAS_H'' \<and>
   \<not> is_defined (start_state [(''SQLCIPHER_EXTRAS_H'', [])]) ''SQLITE_HAS_CODEC'' \<and>
   include_extras [] 0 (start_state [(''SQLCIPHER_EXTRAS_H'', [])])
     = start_state [(''SQLCIPHER_EXTRAS_H'', [])] \<and>
   \<not> is_defined (include_extras [] 0 (start_state [(''SQLCIPHER_EXTRAS_H'', [])]))
       ''SQLITE_HAS_CODEC''"
proof -
  have p: "is_defined (start_state [(''SQLCIPHER_EXTRAS_H'', [])]) ''SQLCIPHER_EXTRAS_H''"
    by (simp add: is_defined_def lookup_def start_state_def)
  have u: "\<not> is_defined (start_state [(''SQLCIPHER_EXTRAS_H'', [])]) ''SQLITE_HAS_CODEC''"
    by (simp add: is_defined_def lookup_def start_state_def)
  show ?thesis
    using p u predefined_guard_disables_shim [OF p, of "[]" 0]
    by blast
qed

text \<open>
  C9: the state after an \<^verbatim>\<open>#include\<close> of the header is a function of the state before it
  alone: two runs from the same state end in the same state, whatever else the two file
  tables hold and whatever inclusion depth is left in each run.
\<close>

theorem inclusion_deterministic:
  assumes "has_extras fs1" and "has_extras fs2" and "s1 = s2"
  shows "pp_lines fs1 (Suc d1) [Include extras_name] [] s1 =
         pp_lines fs2 (Suc d2) [Include extras_name] [] s2"
proof -
  have "pp_lines fs1 (Suc d1) [Include extras_name] [] s1 = include_extras fs1 d1 s1"
    using assms(1) by (rule pp_lines_one_include)
  also have "\<dots> = include_extras fs2 d2 s2"
    unfolding assms(3) by (rule include_extras_env)
  also have "\<dots> = pp_lines fs2 (Suc d2) [Include extras_name] [] s2"
    using assms(2) by (rule pp_lines_one_include [symmetric])
  finally show ?thesis .
qed

theorem inclusion_deterministic_witness:
  "has_extras [(extras_name, sqlcipher_extras_h)] \<and>
   has_extras [(''config.h'', [Define ''SQLITE_HAS_CODEC'' [''0'']]),
               (extras_name, sqlcipher_extras_h)] \<and>
   pp_lines [(extras_name, sqlcipher_extras_h)] (Suc 0) [Include extras_name] []
     (start_state [(''NDEBUG'', [])])
   = pp_lines [(''config.h'', [Define ''SQLITE_HAS_CODEC'' [''0'']]),
               (extras_name, sqlcipher_extras_h)] (Suc 7) [Include extras_name] []
       (start_state [(''NDEBUG'', [])])"
proof -
  have h1: "has_extras [(extras_name, sqlcipher_extras_h)]"
    by (simp add: has_extras_def)
  have h2: "has_extras [(''config.h'', [Define ''SQLITE_HAS_CODEC'' [''0'']]),
                        (extras_name, sqlcipher_extras_h)]"
    by (simp add: has_extras_def extras_name_def)
  show ?thesis
    using h1 h2 inclusion_deterministic [OF h1 h2 refl, of 0 "start_state [(''NDEBUG'', [])]" 7]
    by blast
qed

end
